theory Spec2Isabelle
  imports Complex_Main "HOL-Library.Word" "HOL-Library.Multiset"
begin

section \<open>Pairing options and their cache size hints (feature/pairing.h)\<close>

text \<open>
  The option structs of \<^verbatim>\<open>pairing.h\<close>. A C++ \<^verbatim>\<open>int\<close> is a 32-bit word read
  in two's complement (\<open>sint\<close>); \<^verbatim>\<open>size_t\<close> is a 64-bit word read unsigned.
  \<^verbatim>\<open>double\<close> fields are kept as reals, paths as strings. Arithmetic on \<^verbatim>\<open>int\<close>
  is the word arithmetic of the target: a product that leaves the range of \<^verbatim>\<open>int\<close>,
  which C++ leaves undefined, wraps. The implicit conversion of the \<^verbatim>\<open>int\<close> result
  to the \<^verbatim>\<open>size_t\<close> return type is the sign-extending \<open>scast\<close>: a negative value
  \<open>v\<close> becomes \<open>2 ^ 64 + v\<close>.
\<close>

type_synonym c_int = "32 word"
type_synonym size_t = "64 word"

record ExhaustivePairingOptions =
  block_size :: c_int

record VocabTreePairingOptions =
  num_images :: c_int
  num_nearest_neighbors :: c_int
  num_checks :: c_int
  num_images_after_verification :: c_int
  max_num_features :: c_int
  vocab_tree_path :: string
  match_list_path :: string
  num_threads :: c_int

record SequentialPairingOptions =
  overlap :: c_int
  quadratic_overlap :: bool
  expand_rig_images :: bool
  loop_detection :: bool
  loop_detection_period :: c_int
  loop_detection_num_images :: c_int
  loop_detection_num_nearest_neighbors :: c_int
  loop_detection_num_checks :: c_int
  loop_detection_num_images_after_verification :: c_int
  loop_detection_max_num_features :: c_int
  num_threads :: c_int
  vocab_tree_path :: string

record SpatialPairingOptions =
  ignore_z :: bool
  max_num_neighbors :: c_int
  min_num_neighbors :: c_int
  max_distance :: real
  num_threads :: c_int

record TransitivePairingOptions =
  batch_size :: c_int
  num_iterations :: c_int

record ImportedPairingOptions =
  block_size :: c_int
  match_list_path :: string

text \<open>\<^verbatim>\<open>std::max(a, b)\<close> on \<^verbatim>\<open>int\<close>: \<^verbatim>\<open>(a < b) ? b : a\<close>, compared signed.\<close>

definition std_max :: "c_int \<Rightarrow> c_int \<Rightarrow> c_int" where
  "std_max a b = (if sint a < sint b then b else a)"

definition ExhaustivePairingOptions_CacheSize :: "'a ExhaustivePairingOptions_scheme \<Rightarrow> size_t" where
  "ExhaustivePairingOptions_CacheSize opts = scast (ExhaustivePairingOptions.block_size opts)"

definition VocabTreePairingOptions_CacheSize :: "'a VocabTreePairingOptions_scheme \<Rightarrow> size_t" where
  "VocabTreePairingOptions_CacheSize opts = scast (5 * num_images opts)"

definition SequentialPairingOptions_CacheSize :: "'a SequentialPairingOptions_scheme \<Rightarrow> size_t" where
  "SequentialPairingOptions_CacheSize opts =
     scast (std_max (5 * loop_detection_num_images opts) (5 * overlap opts))"

definition SpatialPairingOptions_CacheSize :: "'a SpatialPairingOptions_scheme \<Rightarrow> size_t" where
  "SpatialPairingOptions_CacheSize opts = scast (5 * max_num_neighbors opts)"

definition TransitivePairingOptions_CacheSize :: "'a TransitivePairingOptions_scheme \<Rightarrow> size_t" where
  "TransitivePairingOptions_CacheSize opts = scast (2 * batch_size opts)"

definition ImportedPairingOptions_CacheSize :: "'a ImportedPairingOptions_scheme \<Rightarrow> size_t" where
  "ImportedPairingOptions_CacheSize opts = scast (ImportedPairingOptions.block_size opts)"

text \<open>The six option structs as one closed family, and the call of \<^verbatim>\<open>CacheSize()\<close> on it.\<close>

datatype PairingOptions =
    Exhaustive ExhaustivePairingOptions
  | VocabTree VocabTreePairingOptions
  | Sequential SequentialPairingOptions
  | Spatial SpatialPairingOptions
  | Transitive TransitivePairingOptions
  | Imported ImportedPairingOptions

fun CacheSize :: "PairingOptions \<Rightarrow> size_t" where
  "CacheSize (Exhaustive opts) = ExhaustivePairingOptions_CacheSize opts"
| "CacheSize (VocabTree opts) = VocabTreePairingOptions_CacheSize opts"
| "CacheSize (Sequential opts) = SequentialPairingOptions_CacheSize opts"
| "CacheSize (Spatial opts) = SpatialPairingOptions_CacheSize opts"
| "CacheSize (Transitive opts) = TransitivePairingOptions_CacheSize opts"
| "CacheSize (Imported opts) = ImportedPairingOptions_CacheSize opts"

text \<open>
  The option fields \<^verbatim>\<open>CacheSize()\<close> reads, per struct: two option values that agree on
  them are indistinguishable to it.
\<close>

fun CacheSize_fields :: "PairingOptions \<Rightarrow> c_int list" where
  "CacheSize_fields (Exhaustive opts) = [ExhaustivePairingOptions.block_size opts]"
| "CacheSize_fields (VocabTree opts) = [num_images opts]"
| "CacheSize_fields (Sequential opts) = [loop_detection_num_images opts, overlap opts]"
| "CacheSize_fields (Spatial opts) = [max_num_neighbors opts]"
| "CacheSize_fields (Transitive opts) = [batch_size opts]"
| "CacheSize_fields (Imported opts) = [ImportedPairingOptions.block_size opts]"

fun same_strategy :: "PairingOptions \<Rightarrow> PairingOptions \<Rightarrow> bool" where
  "same_strategy (Exhaustive _) (Exhaustive _) = True"
| "same_strategy (VocabTree _) (VocabTree _) = True"
| "same_strategy (Sequential _) (Sequential _) = True"
| "same_strategy (Spatial _) (Spatial _) = True"
| "same_strategy (Transitive _) (Transitive _) = True"
| "same_strategy (Imported _) (Imported _) = True"
| "same_strategy _ _ = False"

section \<open>Closed-form triangulation (geometry/triangulation.cc)\<close>

text \<open>
  Eigen's fixed-size vectors and matrices are coefficient lists (a matrix is the list of
  its rows); a \<^verbatim>\<open>double\<close> is a real, rounding is not modelled. The linear algebra the
  functions spell out themselves is defined below. The numerical kernels of Eigen
  (\<^verbatim>\<open>JacobiSVD\<close>, \<^verbatim>\<open>SelfAdjointEigenSolver\<close>, \<^verbatim>\<open>normalized\<close>, the quaternion operations) and the helpers
  of \<^verbatim>\<open>pose.h\<close> and \<^verbatim>\<open>essential_matrix.h\<close> are not part of the file: they are
  parameters of the model, collected in the record \<open>kernels\<close>.
\<close>

type_synonym Vector = "real list"
type_synonym Matrix = "real list list"
type_synonym Quaterniond = "real \<times> real \<times> real \<times> real"

record Rigid3d =
  rotation :: Quaterniond
  translation :: Vector

record kernels =
  EIGEN_VERSION_AT_LEAST_3_4_0 :: bool
  JacobiSVD :: "Matrix \<Rightarrow> bool \<times> Matrix"
    \<comment> \<open>\<^verbatim>\<open>(svd.info() == Eigen::Success, svd.matrixV())\<close>\<close>
  SelfAdjointEigenSolver :: "Matrix \<Rightarrow> bool \<times> Matrix"
    \<comment> \<open>\<^verbatim>\<open>(eigen_solver.info() == Eigen::Success, eigen_solver.eigenvectors())\<close>\<close>
  normalized :: "Vector \<Rightarrow> Vector"
  Quaterniond_inverse :: "Quaterniond \<Rightarrow> Quaterniond"
  Quaterniond_rotate :: "Quaterniond \<Rightarrow> Vector \<Rightarrow> Vector"
  Quaterniond_of_matrix :: "Matrix \<Rightarrow> Quaterniond"
  Rigid3d_compose :: "Rigid3d \<Rightarrow> Rigid3d \<Rightarrow> Rigid3d"
  Inverse :: "Rigid3d \<Rightarrow> Rigid3d"
  EssentialMatrixFromPose :: "Rigid3d \<Rightarrow> Matrix"
  FindOptimalImageObservations :: "Matrix \<Rightarrow> Vector \<Rightarrow> Vector \<Rightarrow> Vector \<times> Vector"

definition row :: "Matrix \<Rightarrow> nat \<Rightarrow> Vector" where
  "row m i = m ! i"

definition col :: "Matrix \<Rightarrow> nat \<Rightarrow> Vector" where
  "col m j = map (\<lambda>r. r ! j) m"

definition coeff :: "Matrix \<Rightarrow> nat \<Rightarrow> nat \<Rightarrow> real" where
  "coeff m i j = m ! i ! j"

definition leftCols :: "nat \<Rightarrow> Matrix \<Rightarrow> Matrix" where
  "leftCols n m = map (take n) m"

definition vec_scale :: "real \<Rightarrow> Vector \<Rightarrow> Vector" where
  "vec_scale a v = map (\<lambda>x. a * x) v"

definition vec_add :: "Vector \<Rightarrow> Vector \<Rightarrow> Vector" where
  "vec_add u v = map2 (+) u v"

definition vec_sub :: "Vector \<Rightarrow> Vector \<Rightarrow> Vector" where
  "vec_sub u v = map2 (-) u v"

definition vec_neg :: "Vector \<Rightarrow> Vector" where
  "vec_neg v = map uminus v"

definition mat_add :: "Matrix \<Rightarrow> Matrix \<Rightarrow> Matrix" where
  "mat_add a b = map2 vec_add a b"

definition mat_sub :: "Matrix \<Rightarrow> Matrix \<Rightarrow> Matrix" where
  "mat_sub a b = map2 vec_sub a b"

definition mat_mul :: "Matrix \<Rightarrow> Matrix \<Rightarrow> Matrix" where
  "mat_mul a b = map (\<lambda>r. map (\<lambda>c. sum_list (map2 (*) r c)) (transpose b)) a"

definition outer :: "Vector \<Rightarrow> Vector \<Rightarrow> Matrix" where
  "outer u v = map (\<lambda>x. vec_scale x v) u"

definition Matrix4d_Zero :: Matrix where
  "Matrix4d_Zero = replicate 4 (replicate 4 0)"

definition homogeneous :: "Vector \<Rightarrow> Vector" where
  "homogeneous v = v @ [1]"

definition hnormalized :: "Vector \<Rightarrow> Vector" where
  "hnormalized v = map (\<lambda>x. x / last v) (butlast v)"

definition epsilon :: real where
  "epsilon = 1 / 2 ^ 52"

text \<open>
  The output parameter is a pointer: null, or the address of a cell, written here with
  the cell's current content. A call ends in one of three ways: a failed
  \<^verbatim>\<open>THROW_CHECK_EQ\<close> or \<^verbatim>\<open>THROW_CHECK_NOTNULL\<close> throws (the macros are those of
  \<^verbatim>\<open>util/logging.h\<close>, read by their names), an access outside an object is undefined
  behaviour, or the function returns its \<^verbatim>\<open>bool\<close>; then the result carries the cell
  as the call left it and the values the call stored through the pointer, in order.
\<close>

datatype 'v pointer = nullptr | pointing_at 'v

datatype 'v call_result =
    Throws
  | Undefined
  | Returns bool "'v pointer" "'v list"

definition TriangulatePoint ::
  "'k kernels_scheme \<Rightarrow> Matrix \<Rightarrow> Matrix \<Rightarrow> Vector \<Rightarrow> Vector \<Rightarrow> Vector pointer \<Rightarrow> Vector call_result"
where
  "TriangulatePoint K cam1_from_world cam2_from_world cam_point1 cam_point2 xyz =
     (if xyz = nullptr then Throws
      else
        let A = [vec_sub (vec_scale (cam_point1 ! 0) (row cam1_from_world 2)) (row cam1_from_world 0),
                 vec_sub (vec_scale (cam_point1 ! 1) (row cam1_from_world 2)) (row cam1_from_world 1),
                 vec_sub (vec_scale (cam_point2 ! 0) (row cam2_from_world 2)) (row cam2_from_world 0),
                 vec_sub (vec_scale (cam_point2 ! 1) (row cam2_from_world 2)) (row cam2_from_world 1)];
            (success, matrixV) = JacobiSVD K A
        in if EIGEN_VERSION_AT_LEAST_3_4_0 K \<and> \<not> success then Returns False xyz []
           else if coeff matrixV 3 3 = 0 then Returns False xyz []
           else let p = hnormalized (col matrixV 3)
                in Returns True (pointing_at p) [p])"

definition TriangulateMidPoint ::
  "'k kernels_scheme \<Rightarrow> Rigid3d \<Rightarrow> Vector \<Rightarrow> Vector \<Rightarrow> Vector pointer \<Rightarrow> Vector call_result"
where
  "TriangulateMidPoint K cam2_from_cam1 cam_ray1 cam_ray2 point3D_in_cam1 =
     (let cam1_from_cam2_rotation = Quaterniond_inverse K (rotation cam2_from_cam1);
          cam_ray2_in_cam1 = Quaterniond_rotate K cam1_from_cam2_rotation cam_ray2;
          cam2_in_cam1 =
            Quaterniond_rotate K cam1_from_cam2_rotation (vec_neg (translation cam2_from_cam1));
          A = [[cam_ray1 ! 0, - (cam_ray2_in_cam1 ! 0), - (cam2_in_cam1 ! 0)],
               [cam_ray1 ! 1, - (cam_ray2_in_cam1 ! 1), - (cam2_in_cam1 ! 1)],
               [cam_ray1 ! 2, - (cam_ray2_in_cam1 ! 2), - (cam2_in_cam1 ! 2)]];
          (success, matrixV) = JacobiSVD K A
      in if EIGEN_VERSION_AT_LEAST_3_4_0 K \<and> \<not> success then Returns False point3D_in_cam1 []
         else if coeff matrixV 2 2 = 0 then Returns False point3D_in_cam1 []
         else
           let lambda = hnormalized (col matrixV 2)
           in if lambda ! 0 \<le> epsilon \<or> lambda ! 1 \<le> epsilon
              then Returns False point3D_in_cam1 []
              else
                let p = vec_scale 0.5
                          (vec_add (vec_add (vec_scale (lambda ! 0) cam_ray1) cam2_in_cam1)
                                   (vec_scale (lambda ! 1) cam_ray2_in_cam1))
                in if point3D_in_cam1 = nullptr then Undefined
                   else Returns True (pointing_at p) [p])"

text \<open>\<^verbatim>\<open>span::operator[]\<close> does not check its index: outside the span it is undefined.\<close>

definition span_at :: "'a list \<Rightarrow> nat \<Rightarrow> 'a option" where
  "span_at s i = (if i < length s then Some (s ! i) else None)"

text \<open>
  The accumulation loop of \<^verbatim>\<open>TriangulateMultiViewPoint\<close>, from index \<open>i\<close> with the
  matrix accumulated so far; \<open>None\<close> when an element access leaves its span.
\<close>

function MultiView_accumulate :: "'k kernels_scheme \<Rightarrow> Matrix list \<Rightarrow> Vector list \<Rightarrow> nat \<Rightarrow> Matrix \<Rightarrow> Matrix option" where
  "MultiView_accumulate K cams_from_world cam_points i A =
     (if i < length cam_points then
        (case span_at cam_points i of
           None \<Rightarrow> None
         | Some cam_point \<Rightarrow>
            (case span_at cams_from_world i of
               None \<Rightarrow> None
             | Some cam_from_world \<Rightarrow>
                 let point = normalized K (homogeneous cam_point);
                     term = mat_sub cam_from_world
                              (mat_mul (outer point point) cam_from_world)
                 in MultiView_accumulate K cams_from_world cam_points (i + 1)
                      (mat_add A (mat_mul (transpose term) term))))
      else Some A)"
  by pat_completeness auto
termination
  by (relation "measure (\<lambda>(K, cams_from_world, cam_points, i, A). length cam_points - i)") auto

definition TriangulateMultiViewPoint ::
  "'k kernels_scheme \<Rightarrow> Matrix list \<Rightarrow> Vector list \<Rightarrow> Vector pointer \<Rightarrow> Vector call_result"
where
  "TriangulateMultiViewPoint K cams_from_world cam_points xyz =
     (if length cams_from_world \<noteq> length cam_points then Throws
      else if xyz = nullptr then Throws
      else
        (case MultiView_accumulate K cams_from_world cam_points 0 Matrix4d_Zero of
           None \<Rightarrow> Undefined
         | Some A \<Rightarrow>
             let (success, eigenvectors) = SelfAdjointEigenSolver K A
             in if \<not> success \<or> coeff eigenvectors 3 0 = 0 then Returns False xyz []
                else let p = hnormalized (col eigenvectors 0)
                     in Returns True (pointing_at p) [p]))"

definition TriangulateOptimalPoint ::
  "'k kernels_scheme \<Rightarrow> Matrix \<Rightarrow> Matrix \<Rightarrow> Vector \<Rightarrow> Vector \<Rightarrow> Vector pointer \<Rightarrow> Vector call_result"
where
  "TriangulateOptimalPoint K cam1_from_world_mat cam2_from_world_mat cam_point1 cam_point2 xyz =
     (let cam1_from_world =
            \<lparr>rotation = Quaterniond_of_matrix K (leftCols 3 cam1_from_world_mat),
             translation = col cam1_from_world_mat 3\<rparr>;
          cam2_from_world =
            \<lparr>rotation = Quaterniond_of_matrix K (leftCols 3 cam2_from_world_mat),
             translation = col cam2_from_world_mat 3\<rparr>;
          cam2_from_cam1 = Rigid3d_compose K cam2_from_world (Inverse K cam1_from_world);
          E = EssentialMatrixFromPose K cam2_from_cam1;
          (optimal_point1, optimal_point2) = FindOptimalImageObservations K E cam_point1 cam_point2
      in TriangulatePoint K cam1_from_world_mat cam2_from_world_mat
           optimal_point1 optimal_point2 xyz)"

text \<open>
  One concrete choice of the kernels, for running the functions on concrete inputs: both
  solvers report success, \<^verbatim>\<open>matrixV\<close> is the identity and the eigenvectors are its
  rows in reverse order.
\<close>

definition identity :: "nat \<Rightarrow> Matrix" where
  "identity n = map (\<lambda>i. map (\<lambda>j. if i = j then 1 else 0) [0..<n]) [0..<n]"

definition sample_kernels :: kernels where
  "sample_kernels =
     \<lparr>EIGEN_VERSION_AT_LEAST_3_4_0 = True,
      JacobiSVD = (\<lambda>A. (True, identity (length A))),
      SelfAdjointEigenSolver = (\<lambda>A. (True, rev (identity (length A)))),
      normalized = (\<lambda>v. v),
      Quaterniond_inverse = (\<lambda>q. q),
      Quaterniond_rotate = (\<lambda>q v. v),
      Quaterniond_of_matrix = (\<lambda>m. (1, 0, 0, 0)),
      Rigid3d_compose = (\<lambda>a b. a),
      Inverse = (\<lambda>a. a),
      EssentialMatrixFromPose = (\<lambda>a. []),
      FindOptimalImageObservations = (\<lambda>E p q. (p, q))\<rparr>"

section \<open>The pair generator contract and the exhaustive generator (feature/pairing.h)\<close>

text \<open>
  \<^verbatim>\<open>image_t\<close> is an unsigned integer identifier; \<^verbatim>\<open>size_t\<close> cursors are natural
  numbers. The state of a generator is the record of the data members the header
  declares; a member \<^verbatim>\<open>x_\<close> is the field \<open>x_m\<close>.
\<close>

type_synonym image_t = nat
type_synonym image_pair = "image_t \<times> image_t"

record ExhaustivePairGenerator =
  options_m :: ExhaustivePairingOptions
  image_ids_m :: "image_t list"
  block_size_m :: nat
  num_blocks_m :: nat
  start_idx1_m :: nat
  start_idx2_m :: nat
  image_pairs_m :: "image_pair list"

text \<open>
  Modelled from the spec: the bodies of the constructor, \<^verbatim>\<open>Reset\<close>, \<^verbatim>\<open>HasFinished\<close>
  and \<^verbatim>\<open>Next\<close> of \<^verbatim>\<open>ExhaustivePairGenerator\<close> and of \<^verbatim>\<open>PairGenerator::AllPairs\<close>
  are in \<^verbatim>\<open>pairing.cc\<close>, which is not among the sources. The definitions follow
  sections 4.1 and 4.2 of the specification: the corpus is tiled into square blocks of
  side \<^verbatim>\<open>block_size\<close>; two cursors walk the blocks in row-major order; inside a block
  the pairs with \<open>idx1 < idx2\<close> are emitted, \<open>idx1\<close> outermost; the generator has finished
  once \<^verbatim>\<open>start_idx1_\<close> is past the last block; \<^verbatim>\<open>AllPairs\<close> resets, calls \<^verbatim>\<open>Next\<close>
  until the generator has finished and concatenates the batches. A block without a pair
  \<open>idx1 < idx2\<close> (one below the diagonal) gives an empty batch.
\<close>

definition ExhaustivePairGenerator_new ::
  "ExhaustivePairingOptions \<Rightarrow> image_t list \<Rightarrow> ExhaustivePairGenerator"
where
  "ExhaustivePairGenerator_new options image_ids =
     (let b = unat (scast (ExhaustivePairingOptions.block_size options) :: size_t)
      in \<lparr>options_m = options, image_ids_m = image_ids, block_size_m = b,
          num_blocks_m = (length image_ids + b - 1) div b,
          start_idx1_m = 0, start_idx2_m = 0, image_pairs_m = []\<rparr>)"

definition Exhaustive_Reset :: "ExhaustivePairGenerator \<Rightarrow> ExhaustivePairGenerator" where
  "Exhaustive_Reset g = g\<lparr>start_idx1_m := 0, start_idx2_m := 0\<rparr>"

definition Exhaustive_HasFinished :: "ExhaustivePairGenerator \<Rightarrow> bool" where
  "Exhaustive_HasFinished g \<longleftrightarrow> length (image_ids_m g) \<le> start_idx1_m g"

text \<open>The index pairs of the block whose corner is \<open>(start1, start2)\<close>, in emission order.\<close>

definition block_range :: "nat \<Rightarrow> nat \<Rightarrow> nat \<Rightarrow> nat list" where
  "block_range n b start = [start ..< min n (start + b)]"

definition block_index_pairs :: "nat \<Rightarrow> nat \<Rightarrow> nat \<Rightarrow> nat \<Rightarrow> (nat \<times> nat) list" where
  "block_index_pairs n b start1 start2 =
     concat (map (\<lambda>idx1. concat (map (\<lambda>idx2. if idx1 < idx2 then [(idx1, idx2)] else [])
                                      (block_range n b start2)))
                 (block_range n b start1))"

definition Exhaustive_Next ::
  "ExhaustivePairGenerator \<Rightarrow> image_pair list \<times> ExhaustivePairGenerator"
where
  "Exhaustive_Next g =
     (if Exhaustive_HasFinished g then ([], g\<lparr>image_pairs_m := []\<rparr>)
      else
        let n = length (image_ids_m g);
            pairs = map (\<lambda>(idx1, idx2). (image_ids_m g ! idx1, image_ids_m g ! idx2))
                      (block_index_pairs n (block_size_m g) (start_idx1_m g) (start_idx2_m g));
            next2 = start_idx2_m g + block_size_m g
        in if n \<le> next2
           then (pairs, g\<lparr>start_idx1_m := start_idx1_m g + block_size_m g, start_idx2_m := 0,
                            image_pairs_m := pairs\<rparr>)
           else (pairs, g\<lparr>start_idx2_m := next2, image_pairs_m := pairs\<rparr>))"

text \<open>
  The loop of \<^verbatim>\<open>AllPairs\<close>, for any generator given by its \<^verbatim>\<open>HasFinished\<close> and
  \<^verbatim>\<open>Next\<close>: the batches in the order they were returned, \<open>None\<close> when the loop does not
  end.
\<close>

partial_function (option) drain ::
  "('g \<Rightarrow> bool) \<Rightarrow> ('g \<Rightarrow> 'p list \<times> 'g) \<Rightarrow> 'g \<Rightarrow> 'p list list \<Rightarrow> 'p list list option"
where
  "drain has_finished next g batches =
     (if has_finished g then Some batches
      else case next g of (batch, g') \<Rightarrow> drain has_finished next g' (batches @ [batch]))"

declare drain.simps [code]

definition Exhaustive_batches :: "ExhaustivePairGenerator \<Rightarrow> image_pair list list option" where
  "Exhaustive_batches g = drain Exhaustive_HasFinished Exhaustive_Next (Exhaustive_Reset g) []"

definition Exhaustive_AllPairs :: "ExhaustivePairGenerator \<Rightarrow> image_pair list option" where
  "Exhaustive_AllPairs g = map_option concat (Exhaustive_batches g)"

text \<open>
  The scan order in closed form: the corners of the blocks row by row, and the batch of
  one block. \<open>at_block g ids b r c\<close> says that generator \<open>g\<close> over corpus \<open>ids\<close> with block
  size \<open>b\<close> has its cursors at the corner of block \<open>(r, c)\<close>.
\<close>

definition num_blocks :: "nat \<Rightarrow> nat \<Rightarrow> nat" where
  "num_blocks n b = (n + b - 1) div b"

definition row_major_blocks :: "nat \<Rightarrow> nat \<Rightarrow> (nat \<times> nat) list" where
  "row_major_blocks n b =
     concat (map (\<lambda>r. map (\<lambda>c. (r * b, c * b)) [0..<num_blocks n b]) [0..<num_blocks n b])"

definition block_pairs :: "image_t list \<Rightarrow> nat \<Rightarrow> nat \<times> nat \<Rightarrow> image_pair list" where
  "block_pairs ids b corner =
     map (\<lambda>(idx1, idx2). (ids ! idx1, ids ! idx2))
       (block_index_pairs (length ids) b (fst corner) (snd corner))"

definition at_block :: "ExhaustivePairGenerator \<Rightarrow> image_t list \<Rightarrow> nat \<Rightarrow> nat \<Rightarrow> nat \<Rightarrow> bool" where
  "at_block g ids b r c \<longleftrightarrow>
     image_ids_m g = ids \<and> block_size_m g = b \<and> start_idx1_m g = r * b \<and> start_idx2_m g = c * b"

definition Exhaustive_index_pairs :: "nat \<Rightarrow> nat \<Rightarrow> (nat \<times> nat) list" where
  "Exhaustive_index_pairs n b =
     concat (map (\<lambda>corner. block_index_pairs n b (fst corner) (snd corner)) (row_major_blocks n b))"

text \<open>An emitted pair read as an unordered pair, and the lexicographic order on index pairs.\<close>

definition unordered :: "image_pair \<Rightarrow> image_t set" where
  "unordered p = {fst p, snd p}"

definition lex_less :: "nat \<times> nat \<Rightarrow> nat \<times> nat \<Rightarrow> bool" where
  "lex_less p q \<longleftrightarrow> fst p < fst q \<or> (fst p = fst q \<and> snd p < snd q)"


section \<open>The transitive generator (feature/pairing.h)\<close>

text \<open>
  The data members of \<^verbatim>\<open>TransitivePairGenerator\<close>. The cache is read-only to the
  generator; of it the model keeps what the generator reads, the pairs matched before.
  A canonical pair id (\<^verbatim>\<open>image_pair_t\<close>) encodes \<open>(min a b, max a b)\<close> bijectively in one
  integer; the model keeps the ordered pair itself. The \<^verbatim>\<open>std::unordered_set\<close> of pair
  ids is the list of its elements in insertion order.
\<close>

type_synonym image_pair_t = "image_t \<times> image_t"

record TransitivePairGenerator =
  options_m :: TransitivePairingOptions
  cache_m :: "image_pair list"
  current_iteration_m :: int
  current_batch_idx_m :: int
  current_num_batches_m :: int
  image_pairs_m :: "image_pair list"
  image_pair_ids_m :: "image_pair_t list"

text \<open>
  Modelled from the spec: the bodies of \<^verbatim>\<open>Reset\<close>, \<^verbatim>\<open>HasFinished\<close> and \<^verbatim>\<open>Next\<close> of
  \<^verbatim>\<open>TransitivePairGenerator\<close> and the pair id encoding are not among the sources. The
  definitions follow section 4.7 of the specification. The pairs known are those whose
  id is in \<^verbatim>\<open>image_pair_ids_\<close>: the pairs matched before and every pair emitted since.
  A round takes the known pairs as an undirected graph and, for every known \<open>(a, b)\<close>
  and every \<open>c\<close> with \<open>(b, c)\<close> known, emits \<open>(a, c)\<close> when \<open>a \<noteq> c\<close> and the id of
  \<open>(a, c)\<close> is not in \<^verbatim>\<open>image_pair_ids_\<close>, which is updated on emission. \<^verbatim>\<open>Next\<close>
  hands out what a round emitted in batches of \<^verbatim>\<open>batch_size\<close> and starts the next
  round when nothing is pending, until \<^verbatim>\<open>num_iterations\<close> rounds are done. The two
  batch counters of the header serve the log; the model leaves them as they are.
\<close>

definition ImagePairToPairId :: "image_t \<Rightarrow> image_t \<Rightarrow> image_pair_t" where
  "ImagePairToPairId image_id1 image_id2 = (min image_id1 image_id2, max image_id1 image_id2)"

definition pair_id :: "image_pair \<Rightarrow> image_pair_t" where
  "pair_id p = ImagePairToPairId (fst p) (snd p)"

definition neighbours :: "image_pair_t list \<Rightarrow> image_t \<Rightarrow> image_t list" where
  "neighbours known b =
     concat (map (\<lambda>(x, y). (if x = b then [y] else []) @ (if y = b then [x] else [])) known)"

definition directed_edges :: "image_pair_t list \<Rightarrow> image_pair list" where
  "directed_edges known = concat (map (\<lambda>(x, y). [(x, y), (y, x)]) known)"

definition proposals :: "image_pair_t list \<Rightarrow> image_pair list" where
  "proposals known =
     concat (map (\<lambda>(a, b). map (\<lambda>c. (a, c)) (neighbours known b)) (directed_edges known))"

fun emit_new ::
  "image_pair list \<Rightarrow> image_pair list \<times> image_pair_t list \<Rightarrow> image_pair list \<times> image_pair_t list"
where
  "emit_new [] (emitted, ids) = (emitted, ids)"
| "emit_new (p # ps) (emitted, ids) =
     (if fst p \<noteq> snd p \<and> pair_id p \<notin> set ids
      then emit_new ps (emitted @ [p], ids @ [pair_id p])
      else emit_new ps (emitted, ids))"

definition Transitive_batch_size :: "TransitivePairGenerator \<Rightarrow> nat" where
  "Transitive_batch_size g = nat (sint (batch_size (options_m g)))"

definition Transitive_round :: "TransitivePairGenerator \<Rightarrow> TransitivePairGenerator" where
  "Transitive_round g =
     (let (emitted, ids) = emit_new (proposals (image_pair_ids_m g)) ([], image_pair_ids_m g)
      in g\<lparr>current_iteration_m := current_iteration_m g + 1,
           image_pairs_m := emitted,
           image_pair_ids_m := ids\<rparr>)"

definition Transitive_Reset :: "TransitivePairGenerator \<Rightarrow> TransitivePairGenerator" where
  "Transitive_Reset g =
     g\<lparr>current_iteration_m := 0, image_pairs_m := [],
       image_pair_ids_m := remdups (map pair_id (cache_m g))\<rparr>"

definition Transitive_HasFinished :: "TransitivePairGenerator \<Rightarrow> bool" where
  "Transitive_HasFinished g \<longleftrightarrow>
     sint (num_iterations (options_m g)) \<le> current_iteration_m g \<and> image_pairs_m g = []"

function Transitive_Next ::
  "TransitivePairGenerator \<Rightarrow> image_pair list \<times> TransitivePairGenerator"
where
  "Transitive_Next g =
     (if image_pairs_m g \<noteq> [] then
        (take (Transitive_batch_size g) (image_pairs_m g),
         g\<lparr>image_pairs_m := drop (Transitive_batch_size g) (image_pairs_m g)\<rparr>)
      else if sint (num_iterations (options_m g)) \<le> current_iteration_m g then ([], g)
      else Transitive_Next (Transitive_round g))"
  by pat_completeness auto
termination
  by (relation "measure (\<lambda>g. nat (sint (num_iterations (options_m g)) - current_iteration_m g))")
     (auto simp: Transitive_round_def Let_def split: prod.splits)

declare Transitive_Next.simps [simp del]

definition Transitive_batches :: "TransitivePairGenerator \<Rightarrow> image_pair list list option" where
  "Transitive_batches g = drain Transitive_HasFinished Transitive_Next (Transitive_Reset g) []"

definition Transitive_AllPairs :: "TransitivePairGenerator \<Rightarrow> image_pair list option" where
  "Transitive_AllPairs g = map_option concat (Transitive_batches g)"

definition TransitivePairGenerator_new ::
  "TransitivePairingOptions \<Rightarrow> image_pair list \<Rightarrow> TransitivePairGenerator"
where
  "TransitivePairGenerator_new options cache =
     \<lparr>options_m = options, cache_m = cache, current_iteration_m = 0, current_batch_idx_m = 0,
      current_num_batches_m = 0, image_pairs_m = [], image_pair_ids_m = []\<rparr>"

text \<open>
  \<open>ids_track ids0 handed g\<close>: the id set of \<open>g\<close> is \<open>ids0\<close> followed by the ids of the
  pairs \<open>handed\<close> out and of the pairs still pending, without repetition, and none of
  these pairs is a self-pair.
\<close>

definition ids_track :: "image_pair_t list \<Rightarrow> image_pair list \<Rightarrow> TransitivePairGenerator \<Rightarrow> bool" where
  "ids_track ids0 handed g \<longleftrightarrow>
     image_pair_ids_m g = ids0 @ map pair_id (handed @ image_pairs_m g)
     \<and> distinct (image_pair_ids_m g)
     \<and> (\<forall>p \<in> set (handed @ image_pairs_m g). fst p \<noteq> snd p)"

definition Transitive_measure :: "TransitivePairGenerator \<Rightarrow> nat \<times> nat" where
  "Transitive_measure g =
     (nat (sint (num_iterations (options_m g)) - current_iteration_m g), length (image_pairs_m g))"

definition path_graph_generator :: TransitivePairGenerator where
  "path_graph_generator =
     TransitivePairGenerator_new \<lparr>batch_size = 1000, num_iterations = 2\<rparr> [(1, 2), (2, 3), (3, 4)]"


section \<open>Properties of the cache size hints\<close>

lemma scast_nonneg: "0 \<le> sint (b::c_int) \<Longrightarrow> uint (scast b :: size_t) = sint b"
proof -
  assume h: "0 \<le> sint b"
  have "sint b < 2 ^ 31" using sint_lt [of b] by simp
  also have "(2::int) ^ 31 < 2 ^ 64" by simp
  finally have lt: "sint b < 2 ^ 64" .
  have "uint (scast b :: size_t) = take_bit 64 (sint b)"
    unfolding scast_eq uint_word_of_int_eq by simp
  also have "\<dots> = sint b" using h lt by (rule take_bit_int_eq_self)
  finally show ?thesis .
qed

text \<open>
  C7. \<^verbatim>\<open>CacheSize()\<close> is a function of the option values alone, and of no more than the
  fields it reads: the corpus, the index and earlier calls are not among its arguments,
  and two option values of one strategy that agree on the fields read (whatever their
  paths, thread counts and other fields) give the same size. For
  \<^verbatim>\<open>ExhaustivePairingOptions\<close> the size is \<^verbatim>\<open>block_size\<close>, converted to \<^verbatim>\<open>size_t\<close>:
  the same number whenever \<^verbatim>\<open>block_size\<close> is not negative.
\<close>

theorem CacheSize_pure_function_of_options:
  "(same_strategy a b \<longrightarrow> CacheSize_fields a = CacheSize_fields b \<longrightarrow> CacheSize a = CacheSize b)
   \<and> CacheSize (Exhaustive e) = scast (ExhaustivePairingOptions.block_size e)
   \<and> (0 \<le> sint (ExhaustivePairingOptions.block_size e) \<longrightarrow>
        uint (CacheSize (Exhaustive e)) = sint (ExhaustivePairingOptions.block_size e))"
proof (intro conjI impI)
  assume "same_strategy a b" "CacheSize_fields a = CacheSize_fields b"
  then show "CacheSize a = CacheSize b"
    by (cases a; cases b)
       (simp_all add: ExhaustivePairingOptions_CacheSize_def VocabTreePairingOptions_CacheSize_def
          SequentialPairingOptions_CacheSize_def SpatialPairingOptions_CacheSize_def
          TransitivePairingOptions_CacheSize_def ImportedPairingOptions_CacheSize_def)
next
  show "CacheSize (Exhaustive e) = scast (ExhaustivePairingOptions.block_size e)"
    by (simp add: ExhaustivePairingOptions_CacheSize_def)
next
  assume "0 \<le> sint (ExhaustivePairingOptions.block_size e)"
  then show "uint (CacheSize (Exhaustive e)) = sint (ExhaustivePairingOptions.block_size e)"
    by (simp add: ExhaustivePairingOptions_CacheSize_def scast_nonneg)
qed

theorem CacheSize_pure_function_of_options_witness:
  "same_strategy
     (VocabTree \<lparr>num_images = 100, num_nearest_neighbors = 5, num_checks = 64,
        num_images_after_verification = 0, max_num_features = - 1,
        vocab_tree_path = ''a'', match_list_path = [], num_threads = - 1\<rparr>)
     (VocabTree \<lparr>num_images = 100, num_nearest_neighbors = 1, num_checks = 32,
        num_images_after_verification = 7, max_num_features = 2000,
        vocab_tree_path = ''b'', match_list_path = ''c'', num_threads = 8\<rparr>)
   \<and> CacheSize
     (VocabTree \<lparr>num_images = 100, num_nearest_neighbors = 5, num_checks = 64,
        num_images_after_verification = 0, max_num_features = - 1,
        vocab_tree_path = ''a'', match_list_path = [], num_threads = - 1\<rparr>)
     = CacheSize (VocabTree \<lparr>num_images = 100, num_nearest_neighbors = 1, num_checks = 32,
        num_images_after_verification = 7, max_num_features = 2000,
        vocab_tree_path = ''b'', match_list_path = ''c'', num_threads = 8\<rparr>)
   \<and> 0 \<le> sint (50 :: c_int)
   \<and> uint (CacheSize (Exhaustive \<lparr>ExhaustivePairingOptions.block_size = 50\<rparr>)) = 50"
  using CacheSize_pure_function_of_options
    [of "VocabTree \<lparr>num_images = 100, num_nearest_neighbors = 5, num_checks = 64,
        num_images_after_verification = 0, max_num_features = - 1,
        vocab_tree_path = ''a'', match_list_path = [], num_threads = - 1\<rparr>"
        "VocabTree \<lparr>num_images = 100, num_nearest_neighbors = 1, num_checks = 32,
        num_images_after_verification = 7, max_num_features = 2000,
        vocab_tree_path = ''b'', match_list_path = ''c'', num_threads = 8\<rparr>"
        "\<lparr>ExhaustivePairingOptions.block_size = 50\<rparr>"]
  by simp

section \<open>Properties of the triangulation functions\<close>

lemma accumulate_in_bounds:
  "length cams = length pts \<Longrightarrow> \<exists>A'. MultiView_accumulate K cams pts i A = Some A'"
proof (induction K cams pts i A rule: MultiView_accumulate.induct)
  case (1 K cams pts i A)
  show ?case
  proof (cases "i < length pts")
    case True
    with 1 show ?thesis
      by (subst MultiView_accumulate.simps) (simp add: span_at_def Let_def)
  next
    case False
    then show ?thesis by (subst MultiView_accumulate.simps) simp
  qed
qed

lemma TriangulatePoint_shape:
  "(xyz = nullptr \<and> TriangulatePoint K c1 c2 p1 p2 xyz = Throws)
   \<or> (xyz \<noteq> nullptr \<and> TriangulatePoint K c1 c2 p1 p2 xyz = Returns False xyz [])
   \<or> (xyz \<noteq> nullptr \<and> (\<exists>p. TriangulatePoint K c1 c2 p1 p2 xyz = Returns True (pointing_at p) [p]))"
  by (simp add: TriangulatePoint_def Let_def split: prod.splits)

lemma TriangulateMidPoint_shape:
  "TriangulateMidPoint K c r1 r2 out = Returns False out []
   \<or> (out \<noteq> nullptr \<and> (\<exists>p. TriangulateMidPoint K c r1 r2 out = Returns True (pointing_at p) [p]))
   \<or> (out = nullptr \<and> TriangulateMidPoint K c r1 r2 out = Undefined)"
  by (simp add: TriangulateMidPoint_def Let_def split: prod.splits)

lemma TriangulateMultiViewPoint_shape:
  "((length cams \<noteq> length pts \<or> xyz = nullptr) \<and> TriangulateMultiViewPoint K cams pts xyz = Throws)
   \<or> (length cams = length pts \<and> xyz \<noteq> nullptr \<and>
        TriangulateMultiViewPoint K cams pts xyz = Returns False xyz [])
   \<or> (length cams = length pts \<and> xyz \<noteq> nullptr \<and>
        (\<exists>p. TriangulateMultiViewPoint K cams pts xyz = Returns True (pointing_at p) [p]))"
proof (cases "length cams = length pts \<and> xyz \<noteq> nullptr")
  case True
  then obtain A where "MultiView_accumulate K cams pts 0 Matrix4d_Zero = Some A"
    using accumulate_in_bounds by blast
  with True show ?thesis
    by (simp add: TriangulateMultiViewPoint_def Let_def split: prod.splits)
next
  case False
  then show ?thesis by (auto simp: TriangulateMultiViewPoint_def)
qed

lemma TriangulateOptimalPoint_shape:
  "(xyz = nullptr \<and> TriangulateOptimalPoint K c1 c2 p1 p2 xyz = Throws)
   \<or> (xyz \<noteq> nullptr \<and> TriangulateOptimalPoint K c1 c2 p1 p2 xyz = Returns False xyz [])
   \<or> (xyz \<noteq> nullptr \<and> (\<exists>p. TriangulateOptimalPoint K c1 c2 p1 p2 xyz = Returns True (pointing_at p) [p]))"
  unfolding TriangulateOptimalPoint_def Let_def
  by (simp split: prod.splits add: TriangulatePoint_shape)

text \<open>
  C10. \<^verbatim>\<open>TriangulateMultiViewPoint\<close> throws, whatever the kernels would compute, when
  the two spans differ in size or the output pointer is null. When the spans have the
  same size and the pointer is not null, neither check fails, the accumulation loop runs
  to its end with every access \<^verbatim>\<open>cam_points[i]\<close> and \<^verbatim>\<open>cams_from_world[i]\<close> inside
  its span, and the call returns.
\<close>

theorem TriangulateMultiViewPoint_checks_and_bounds:
  "(length cams_from_world \<noteq> length cam_points \<or> xyz = nullptr \<longrightarrow>
      TriangulateMultiViewPoint K cams_from_world cam_points xyz = Throws)
   \<and> (length cams_from_world = length cam_points \<and> xyz \<noteq> nullptr \<longrightarrow>
      (\<exists>A. MultiView_accumulate K cams_from_world cam_points 0 Matrix4d_Zero = Some A)
      \<and> TriangulateMultiViewPoint K cams_from_world cam_points xyz \<noteq> Throws
      \<and> TriangulateMultiViewPoint K cams_from_world cam_points xyz \<noteq> Undefined)"
proof (intro conjI impI)
  assume "length cams_from_world \<noteq> length cam_points \<or> xyz = nullptr"
  then show "TriangulateMultiViewPoint K cams_from_world cam_points xyz = Throws"
    by (auto simp: TriangulateMultiViewPoint_def)
next
  assume h: "length cams_from_world = length cam_points \<and> xyz \<noteq> nullptr"
  then obtain A where A: "MultiView_accumulate K cams_from_world cam_points 0 Matrix4d_Zero = Some A"
    using accumulate_in_bounds by blast
  then show "\<exists>A. MultiView_accumulate K cams_from_world cam_points 0 Matrix4d_Zero = Some A"
    by blast
  from h A show "TriangulateMultiViewPoint K cams_from_world cam_points xyz \<noteq> Throws"
    by (simp add: TriangulateMultiViewPoint_def Let_def split: prod.splits)
  from h A show "TriangulateMultiViewPoint K cams_from_world cam_points xyz \<noteq> Undefined"
    by (simp add: TriangulateMultiViewPoint_def Let_def split: prod.splits)
qed

theorem TriangulateMultiViewPoint_checks_and_bounds_witness:
  "length [[[1, 0, 0, 0], [0, 1, 0, 0], [0, 0, 1, 0 :: real]]] \<noteq> length [[0, 0], [1, 1 :: real]]
   \<and> TriangulateMultiViewPoint sample_kernels
        [[[1, 0, 0, 0], [0, 1, 0, 0], [0, 0, 1, 0]]] [[0, 0], [1, 1]] (pointing_at [9, 9, 9]) = Throws
   \<and> TriangulateMultiViewPoint sample_kernels
        [[[1, 0, 0, 0], [0, 1, 0, 0], [0, 0, 1, 0]]] [[0, 0]] nullptr = Throws
   \<and> length [[[1, 0, 0, 0], [0, 1, 0, 0], [0, 0, 1, 0 :: real]]] = length [[0, 0 :: real]]
   \<and> pointing_at [9, 9, 9 :: real] \<noteq> nullptr
   \<and> TriangulateMultiViewPoint sample_kernels
        [[[1, 0, 0, 0], [0, 1, 0, 0], [0, 0, 1, 0]]] [[0, 0]] (pointing_at [9, 9, 9]) \<noteq> Throws
   \<and> TriangulateMultiViewPoint sample_kernels
        [[[1, 0, 0, 0], [0, 1, 0, 0], [0, 0, 1, 0]]] [[0, 0]] (pointing_at [9, 9, 9]) \<noteq> Undefined"
  using TriangulateMultiViewPoint_checks_and_bounds
      [of "[[[1, 0, 0, 0], [0, 1, 0, 0], [0, 0, 1, 0]]]" "[[0, 0], [1, 1]]"
          "pointing_at [9, 9, 9]" sample_kernels]
    TriangulateMultiViewPoint_checks_and_bounds
      [of "[[[1, 0, 0, 0], [0, 1, 0, 0], [0, 0, 1, 0]]]" "[[0, 0]]" nullptr sample_kernels]
    TriangulateMultiViewPoint_checks_and_bounds
      [of "[[[1, 0, 0, 0], [0, 1, 0, 0], [0, 0, 1, 0]]]" "[[0, 0]]"
          "pointing_at [9, 9, 9]" sample_kernels]
  by simp

text \<open>
  C9, as stated, fails: a call can end without returning either value. With spans of
  different sizes \<^verbatim>\<open>TriangulateMultiViewPoint\<close> throws although its output pointer is
  valid, and \<^verbatim>\<open>TriangulatePoint\<close> throws on a null output pointer.
\<close>

theorem triangulation_failure_by_exception:
  "TriangulateMultiViewPoint sample_kernels [] [[0, 0]] (pointing_at [9, 9, 9]) = Throws
   \<and> TriangulatePoint sample_kernels
        [[1, 0, 0, 0], [0, 1, 0, 0], [0, 0, 1, 0]] [[1, 0, 0, - 1], [0, 1, 0, 0], [0, 0, 1, 0]]
        [0, 0] [0, 0] nullptr = Throws"
  by (simp add: TriangulateMultiViewPoint_def TriangulatePoint_def)

text \<open>
  C9, amended. Every call of \<^verbatim>\<open>TriangulatePoint\<close>, \<^verbatim>\<open>TriangulateOptimalPoint\<close> and
  \<^verbatim>\<open>TriangulateMultiViewPoint\<close> ends in exactly one of three ways: a check throws
  (the output pointer is null or, for the multi-view function, the spans differ in
  size) and nothing is stored; it returns false, nothing is stored and the output cell
  is as before; or it returns true having stored exactly one point, which the cell then
  holds. \<^verbatim>\<open>TriangulateMidPoint\<close> checks nothing: with a non-null output pointer it
  returns false without a store or true after exactly one store; with a null pointer it
  returns false or its store is undefined.
\<close>

theorem triangulation_outcomes:
  "((xyz = nullptr \<and> TriangulatePoint K cam1 cam2 p1 p2 xyz = Throws)
      \<or> (xyz \<noteq> nullptr \<and> TriangulatePoint K cam1 cam2 p1 p2 xyz = Returns False xyz [])
      \<or> (xyz \<noteq> nullptr \<and>
           (\<exists>p. TriangulatePoint K cam1 cam2 p1 p2 xyz = Returns True (pointing_at p) [p])))
   \<and> (TriangulateMidPoint K cam2_from_cam1 ray1 ray2 xyz = Returns False xyz []
      \<or> (xyz \<noteq> nullptr \<and>
           (\<exists>p. TriangulateMidPoint K cam2_from_cam1 ray1 ray2 xyz = Returns True (pointing_at p) [p]))
      \<or> (xyz = nullptr \<and> TriangulateMidPoint K cam2_from_cam1 ray1 ray2 xyz = Undefined))
   \<and> (((length cams \<noteq> length pts \<or> xyz = nullptr)
           \<and> TriangulateMultiViewPoint K cams pts xyz = Throws)
      \<or> (length cams = length pts \<and> xyz \<noteq> nullptr \<and>
           TriangulateMultiViewPoint K cams pts xyz = Returns False xyz [])
      \<or> (length cams = length pts \<and> xyz \<noteq> nullptr \<and>
           (\<exists>p. TriangulateMultiViewPoint K cams pts xyz = Returns True (pointing_at p) [p])))
   \<and> ((xyz = nullptr \<and> TriangulateOptimalPoint K cam1 cam2 p1 p2 xyz = Throws)
      \<or> (xyz \<noteq> nullptr \<and> TriangulateOptimalPoint K cam1 cam2 p1 p2 xyz = Returns False xyz [])
      \<or> (xyz \<noteq> nullptr \<and>
           (\<exists>p. TriangulateOptimalPoint K cam1 cam2 p1 p2 xyz = Returns True (pointing_at p) [p])))"
  using TriangulatePoint_shape [of xyz K cam1 cam2 p1 p2]
    TriangulateMidPoint_shape [of K cam2_from_cam1 ray1 ray2 xyz]
    TriangulateMultiViewPoint_shape [of cams pts xyz K]
    TriangulateOptimalPoint_shape [of xyz K cam1 cam2 p1 p2]
  by blast

theorem triangulation_outcomes_witness:
  "pointing_at [9, 9, 9 :: real] \<noteq> nullptr
   \<and> length [[[1, 0, 0, 0], [0, 1, 0, 0], [0, 0, 1, 0 :: real]]] = length [[0, 0 :: real]]
   \<and> TriangulatePoint sample_kernels
        [[1, 0, 0, 0], [0, 1, 0, 0], [0, 0, 1, 0]] [[1, 0, 0, - 1], [0, 1, 0, 0], [0, 0, 1, 0]]
        [0, 0] [0, 0] (pointing_at [9, 9, 9]) = Returns True (pointing_at [0, 0, 0]) [[0, 0, 0]]
   \<and> TriangulateMidPoint sample_kernels \<lparr>rotation = (1, 0, 0, 0), translation = [1, 0, 0]\<rparr>
        [0, 0, 1] [0, 0, 1] (pointing_at [9, 9, 9]) = Returns False (pointing_at [9, 9, 9]) []
   \<and> TriangulateMultiViewPoint sample_kernels
        [[[1, 0, 0, 0], [0, 1, 0, 0], [0, 0, 1, 0]]] [[0, 0]] (pointing_at [9, 9, 9])
        = Returns True (pointing_at [0, 0, 0]) [[0, 0, 0]]
   \<and> TriangulateOptimalPoint sample_kernels
        [[1, 0, 0, 0], [0, 1, 0, 0], [0, 0, 1, 0]] [[1, 0, 0, - 1], [0, 1, 0, 0], [0, 0, 1, 0]]
        [0, 0] [0, 0] (pointing_at [9, 9, 9]) = Returns True (pointing_at [0, 0, 0]) [[0, 0, 0]]"
  using triangulation_outcomes
      [of "pointing_at [9, 9, 9]" sample_kernels
          "[[1, 0, 0, 0], [0, 1, 0, 0], [0, 0, 1, 0]]" "[[1, 0, 0, - 1], [0, 1, 0, 0], [0, 0, 1, 0]]"
          "[0, 0]" "[0, 0]" "\<lparr>rotation = (1, 0, 0, 0), translation = [1, 0, 0]\<rparr>"
          "[0, 0, 1]" "[0, 0, 1]" "[[[1, 0, 0, 0], [0, 1, 0, 0], [0, 0, 1, 0]]]" "[[0, 0]]"]
  by (simp add: TriangulatePoint_def TriangulateMidPoint_def TriangulateMultiViewPoint_def
        TriangulateOptimalPoint_def sample_kernels_def identity_def Matrix4d_Zero_def span_at_def
        row_def col_def coeff_def leftCols_def vec_scale_def vec_add_def vec_sub_def vec_neg_def
        mat_add_def mat_sub_def mat_mul_def outer_def homogeneous_def hnormalized_def epsilon_def
        Let_def upt_rec numeral_eq_Suc)


section \<open>Properties of the exhaustive generator\<close>

lemma inner_filter:
  "concat (map (\<lambda>j. if P i j then [(i, j)] else []) ys) = filter (\<lambda>(i, j). P i j) (map (Pair i) ys)"
  by (induction ys) auto

lemma nested_filter_product:
  "concat (map (\<lambda>i. concat (map (\<lambda>j. if P i j then [(i, j)] else []) ys)) xs)
     = filter (\<lambda>(i, j). P i j) (List.product xs ys)"
  by (induction xs) (auto simp: inner_filter)

lemma block_index_pairs_filter:
  "block_index_pairs n b s1 s2
     = filter (\<lambda>(i, j). i < j) (List.product (block_range n b s1) (block_range n b s2))"
  unfolding block_index_pairs_def by (rule nested_filter_product)

lemma block_ranges_prefix:
  "concat (map (\<lambda>c. block_range n b (c * b)) [0..<k]) = [0..<min n (k * b)]"
proof (induction k)
  case 0
  show ?case by simp
next
  case (Suc k)
  have "[0..<min n (k * b)] @ [k * b..<min n (k * b + b)] = [0..<min n (k * b + b)]"
  proof (cases "k * b \<le> n")
    case True
    then have "[0..<min n (k * b)] = [0..<k * b]" by (simp add: min_def)
    moreover have "k * b \<le> min n (k * b + b)" using True by simp
    moreover have "[0..<k * b + (min n (k * b + b) - k * b)]
                      = [0..<k * b] @ [k * b..<k * b + (min n (k * b + b) - k * b)]"
      by (rule upt_add_eq_append) simp
    ultimately show ?thesis by simp
  next
    case False
    then show ?thesis by (simp add: min_def)
  qed
  with Suc show ?case by (simp add: block_range_def add.commute)
qed

lemma num_blocks_cover: "0 < b \<Longrightarrow> (n::nat) \<le> num_blocks n b * b"
proof -
  assume b: "0 < b"
  have "n + b - 1 = num_blocks n b * b + (n + b - 1) mod b"
    unfolding num_blocks_def by simp
  moreover have "(n + b - 1) mod b < b" using b by simp
  ultimately show ?thesis unfolding num_blocks_def by linarith
qed

lemma block_ranges_cover:
  "0 < b \<Longrightarrow> concat (map (\<lambda>c. block_range n b (c * b)) [0..<num_blocks n b]) = [0..<n]"
  using block_ranges_prefix [of n b "num_blocks n b"] num_blocks_cover [of b n]
  by (simp add: min_def)

lemma mset_product_append:
  "mset (List.product xs (ys @ zs)) = mset (List.product xs ys) + mset (List.product xs zs)"
  by (induction xs) auto

lemma product_append_left:
  "List.product (xs @ xs') ys = List.product xs ys @ List.product xs' ys"
  by (induction xs) auto

lemma product_Nil_right: "List.product xs [] = []"
  by (induction xs) auto

lemma mset_row_blocks:
  "mset (concat (map (\<lambda>ys. filter P (List.product xs ys)) yss))
     = mset (filter P (List.product xs (concat yss)))"
  by (induction yss) (auto simp: mset_product_append product_Nil_right)

lemma mset_all_blocks:
  "mset (concat (map (\<lambda>xs. concat (map (\<lambda>ys. filter P (List.product xs ys)) yss)) xss))
     = mset (filter P (List.product (concat xss) (concat yss)))"
  by (induction xss) (auto simp: mset_row_blocks product_append_left)

lemma upper_pairs_set:
  "set (filter (\<lambda>(i, j). i < j) (List.product [0..<n] [0..<n])) = {(i, j). i < j \<and> j < n}"
  by auto

lemma upper_pairs_card: "card {(i, j). i < j \<and> j < (n::nat)} = n * (n - 1) div 2"
proof (induction n)
  case 0
  show ?case by simp
next
  case (Suc n)
  have split: "{(i, j). i < j \<and> j < Suc n} = {(i, j). i < j \<and> j < n} \<union> (\<lambda>i. (i, n)) ` {..<n}"
    by (auto simp: less_Suc_eq)
  have fin: "finite {(i, j). i < j \<and> j < n}"
    by (rule finite_subset [of _ "{..<n} \<times> {..<n}"]) auto
  have disj: "{(i, j). i < j \<and> j < n} \<inter> (\<lambda>i. (i, n)) ` {..<n} = {}" by auto
  have "card ((\<lambda>i. (i, n)) ` {..<n}) = n"
    by (simp add: card_image inj_on_def)
  then have "card {(i, j). i < j \<and> j < Suc n} = n * (n - 1) div 2 + n"
    unfolding split using fin disj Suc by (simp add: card_Un_disjoint)
  also have "\<dots> = Suc n * (Suc n - 1) div 2"
  proof -
    have ev: "even (n * (n - 1))" by (cases n) auto
    have "Suc n * n = n * (n - 1) + 2 * n" by (cases n) auto
    then have "Suc n * (Suc n - 1) div 2 = (n * (n - 1) + n * 2) div 2" by simp
    also have "\<dots> = n * (n - 1) div 2 + n" by simp
    finally show ?thesis by simp
  qed
  finally show ?case .
qed

lemma upper_pairs_length:
  "length (filter (\<lambda>(i, j). i < j) (List.product [0..<n] [0..<n])) = n * (n - 1) div 2"
proof -
  have "distinct (filter (\<lambda>(i, j). i < j) (List.product [0..<n] [0..<n]))"
    by (simp add: distinct_product)
  then have "length (filter (\<lambda>(i, j). i < j) (List.product [0..<n] [0..<n]))
               = card (set (filter (\<lambda>(i, j). i < j) (List.product [0..<n] [0..<n])))"
    by (rule distinct_card [symmetric])
  then show ?thesis by (simp only: upper_pairs_set upper_pairs_card)
qed


lemma num_blocks_le_iff: "0 < b \<Longrightarrow> (num_blocks n b \<le> k) = (n \<le> k * b)"
proof -
  assume b: "0 < b"
  have "(num_blocks n b < Suc k) = (n + b - 1 < Suc k * b)"
    unfolding num_blocks_def using b by (rule div_less_iff_less_mult)
  also have "\<dots> = (n \<le> k * b)" using b by auto
  finally show ?thesis by (simp add: less_Suc_eq_le)
qed

lemma Exhaustive_HasFinished_at_block:
  "0 < b \<Longrightarrow> at_block g ids b r c \<Longrightarrow>
     Exhaustive_HasFinished g = (num_blocks (length ids) b \<le> r)"
  by (simp add: Exhaustive_HasFinished_def at_block_def num_blocks_le_iff)

lemma Exhaustive_Next_at_block:
  assumes b: "0 < b" and g: "at_block g ids b r c" and r: "r < num_blocks (length ids) b"
  shows "fst (Exhaustive_Next g) = block_pairs ids b (r * b, c * b)"
    and "Suc c < num_blocks (length ids) b \<Longrightarrow> at_block (snd (Exhaustive_Next g)) ids b r (Suc c)"
    and "num_blocks (length ids) b \<le> Suc c \<Longrightarrow> at_block (snd (Exhaustive_Next g)) ids b (Suc r) 0"
proof -
  have nf: "\<not> Exhaustive_HasFinished g"
    using Exhaustive_HasFinished_at_block [OF b g] r by simp
  have wrap: "(length ids \<le> c * b + b) = (num_blocks (length ids) b \<le> Suc c)"
    using num_blocks_le_iff [OF b, of "length ids" "Suc c"] by (simp add: add.commute)
  show "fst (Exhaustive_Next g) = block_pairs ids b (r * b, c * b)"
    using nf g by (simp add: Exhaustive_Next_def Let_def block_pairs_def at_block_def)
  show "Suc c < num_blocks (length ids) b \<Longrightarrow> at_block (snd (Exhaustive_Next g)) ids b r (Suc c)"
    using nf g wrap by (simp add: Exhaustive_Next_def Let_def at_block_def add.commute)
  show "num_blocks (length ids) b \<le> Suc c \<Longrightarrow> at_block (snd (Exhaustive_Next g)) ids b (Suc r) 0"
    using nf g wrap by (simp add: Exhaustive_Next_def Let_def at_block_def add.commute)
qed

lemma drain_step:
  "\<not> hf g \<Longrightarrow> drain hf nx g acc = drain hf nx (snd (nx g)) (acc @ [fst (nx g)])"
  by (subst drain.simps) (simp add: case_prod_beta)

lemma drain_row:
  assumes b: "0 < b" and r: "r < num_blocks (length ids) b"
  shows "c < num_blocks (length ids) b \<Longrightarrow> at_block g ids b r c \<Longrightarrow>
           \<exists>g'. at_block g' ids b (Suc r) 0 \<and>
             drain Exhaustive_HasFinished Exhaustive_Next g acc
               = drain Exhaustive_HasFinished Exhaustive_Next g'
                   (acc @ map (\<lambda>c'. block_pairs ids b (r * b, c' * b)) [c..<num_blocks (length ids) b])"
proof (induction "num_blocks (length ids) b - c" arbitrary: c g acc)
  case 0
  then show ?case by simp
next
  case (Suc k)
  let ?nb = "num_blocks (length ids) b"
  let ?g = "snd (Exhaustive_Next g)"
  have nf: "\<not> Exhaustive_HasFinished g"
    using Exhaustive_HasFinished_at_block [OF b Suc.prems(2)] r by simp
  have step: "drain Exhaustive_HasFinished Exhaustive_Next g acc
                = drain Exhaustive_HasFinished Exhaustive_Next ?g
                    (acc @ [block_pairs ids b (r * b, c * b)])"
    using drain_step [of Exhaustive_HasFinished g Exhaustive_Next acc, OF nf]
      Exhaustive_Next_at_block(1) [OF b Suc.prems(2) r] by simp
  have upt: "[c..<?nb] = c # [Suc c..<?nb]"
    using Suc.prems(1) by (simp add: upt_conv_Cons)
  show ?case
  proof (cases "Suc c < ?nb")
    case True
    have k: "k = ?nb - Suc c" using Suc.hyps(2) by simp
    have g': "at_block ?g ids b r (Suc c)"
      using Exhaustive_Next_at_block(2) [OF b Suc.prems(2) r True] .
    from Suc.hyps(1) [OF k True g', of "acc @ [block_pairs ids b (r * b, c * b)]"]
    show ?thesis unfolding step upt by simp
  next
    case False
    then have last: "[Suc c..<?nb] = []" by simp
    have g': "at_block ?g ids b (Suc r) 0"
      using Exhaustive_Next_at_block(3) [OF b Suc.prems(2) r] False by simp
    show ?thesis unfolding step upt last using g' by auto
  qed
qed

lemma drain_rows:
  assumes b: "0 < b"
  shows "r \<le> num_blocks (length ids) b \<Longrightarrow> at_block g ids b r 0 \<Longrightarrow>
           drain Exhaustive_HasFinished Exhaustive_Next g acc
             = Some (acc @ concat (map (\<lambda>r'. map (\<lambda>c'. block_pairs ids b (r' * b, c' * b))
                                                  [0..<num_blocks (length ids) b])
                                        [r..<num_blocks (length ids) b]))"
proof (induction "num_blocks (length ids) b - r" arbitrary: r g acc)
  case 0
  then have "Exhaustive_HasFinished g"
    using Exhaustive_HasFinished_at_block [OF b 0(3)] by simp
  moreover have "[r..<num_blocks (length ids) b] = []" using 0 by simp
  ultimately show ?case by (subst drain.simps) (simp only: if_True concat.simps list.map append_Nil2)
next
  case (Suc k)
  let ?nb = "num_blocks (length ids) b"
  have r: "r < ?nb" using Suc.hyps(2) by simp
  then have pos: "0 < ?nb" by simp
  obtain g' where g': "at_block g' ids b (Suc r) 0"
    and eq: "drain Exhaustive_HasFinished Exhaustive_Next g acc
               = drain Exhaustive_HasFinished Exhaustive_Next g'
                   (acc @ map (\<lambda>c'. block_pairs ids b (r * b, c' * b)) [0..<?nb])"
    using drain_row [OF b r pos Suc.prems(2), of acc] by blast
  have k: "k = ?nb - Suc r" using Suc.hyps(2) by simp
  have le: "Suc r \<le> ?nb" using r by simp
  have upt: "[r..<?nb] = r # [Suc r..<?nb]" using r by (simp add: upt_conv_Cons)
  show ?case
    unfolding eq Suc.hyps(1) [OF k le g'] upt by simp
qed

lemma Exhaustive_batches_closed_form:
  assumes b: "0 < block_size_m g"
  shows "Exhaustive_batches g
           = Some (map (block_pairs (image_ids_m g) (block_size_m g))
                     (row_major_blocks (length (image_ids_m g)) (block_size_m g)))"
proof -
  have "at_block (Exhaustive_Reset g) (image_ids_m g) (block_size_m g) 0 0"
    by (simp add: at_block_def Exhaustive_Reset_def)
  from drain_rows [OF b _ this, of "[]"]
  show ?thesis
    unfolding Exhaustive_batches_def row_major_blocks_def
    by (simp add: map_concat comp_def)
qed

lemma concat_map_concat:
  "concat (map f (concat xss)) = concat (map (\<lambda>xs. concat (map f xs)) xss)"
  by (induction xss) auto

lemma Exhaustive_index_pairs_nested:
  "Exhaustive_index_pairs n b
     = concat (map (\<lambda>xs. concat (map (\<lambda>ys. filter (\<lambda>(i, j). i < j) (List.product xs ys))
                                       (map (\<lambda>c. block_range n b (c * b)) [0..<num_blocks n b])))
                   (map (\<lambda>r. block_range n b (r * b)) [0..<num_blocks n b]))"
  unfolding Exhaustive_index_pairs_def row_major_blocks_def
  by (simp add: concat_map_concat comp_def block_index_pairs_filter)

lemma Exhaustive_index_pairs_mset:
  "0 < b \<Longrightarrow> mset (Exhaustive_index_pairs n b)
                  = mset (filter (\<lambda>(i, j). i < j) (List.product [0..<n] [0..<n]))"
  unfolding Exhaustive_index_pairs_nested mset_all_blocks
  by (simp only: block_ranges_cover)

lemma Exhaustive_index_pairs_distinct: "0 < b \<Longrightarrow> distinct (Exhaustive_index_pairs n b)"
proof -
  assume "0 < b"
  then have "mset (Exhaustive_index_pairs n b)
               = mset (filter (\<lambda>(i, j). i < j) (List.product [0..<n] [0..<n]))"
    by (rule Exhaustive_index_pairs_mset)
  moreover have "distinct (filter (\<lambda>(i, j). i < j) (List.product [0..<n] [0..<n]))"
    by (simp add: distinct_product)
  ultimately show ?thesis by (metis mset_eq_imp_distinct_iff)
qed

lemma Exhaustive_index_pairs_set:
  "0 < b \<Longrightarrow> set (Exhaustive_index_pairs n b) = {(i, j). i < j \<and> j < n}"
  using mset_eq_setD [OF Exhaustive_index_pairs_mset [of b n]] upper_pairs_set [of n] by simp

lemma Exhaustive_index_pairs_length:
  "0 < b \<Longrightarrow> length (Exhaustive_index_pairs n b) = n * (n - 1) div 2"
  using mset_eq_length [OF Exhaustive_index_pairs_mset [of b n]] upper_pairs_length [of n] by simp

lemma concat_block_pairs:
  "concat (map (block_pairs ids b) (row_major_blocks (length ids) b))
     = map (\<lambda>(i, j). (ids ! i, ids ! j)) (Exhaustive_index_pairs (length ids) b)"
  unfolding Exhaustive_index_pairs_def
  by (simp add: map_concat comp_def block_pairs_def [abs_def])

lemma unordered_inj:
  assumes "distinct ids"
  shows "inj_on (\<lambda>p. unordered (case p of (i, j) \<Rightarrow> (ids ! i, ids ! j)))
           {(i, j). i < j \<and> j < length ids}"
proof (rule inj_onI)
  fix p q
  assume p: "p \<in> {(i, j). i < j \<and> j < length ids}"
    and q: "q \<in> {(i, j). i < j \<and> j < length ids}"
    and eq: "unordered (case p of (i, j) \<Rightarrow> (ids ! i, ids ! j))
               = unordered (case q of (i, j) \<Rightarrow> (ids ! i, ids ! j))"
  obtain i j where pij: "p = (i, j)" by (cases p)
  obtain k l where qkl: "q = (k, l)" by (cases q)
  from p pij have ij: "i < j" "j < length ids" by auto
  from q qkl have kl: "k < l" "l < length ids" by auto
  from eq pij qkl have "{ids ! i, ids ! j} = {ids ! k, ids ! l}"
    by (simp add: unordered_def)
  then have "(ids ! i = ids ! k \<and> ids ! j = ids ! l) \<or> (ids ! i = ids ! l \<and> ids ! j = ids ! k)"
    by (simp add: doubleton_eq_iff)
  then have "(i = k \<and> j = l) \<or> (i = l \<and> j = k)"
    using assms ij kl by (simp add: nth_eq_iff_index_eq)
  with ij kl have "i = k \<and> j = l" by auto
  with pij qkl show "p = q" by simp
qed

lemma lex_sorted_product:
  "sorted_wrt (<) xs \<Longrightarrow> sorted_wrt (<) ys \<Longrightarrow> sorted_wrt lex_less (List.product xs ys)"
  by (induction xs) (auto simp: sorted_wrt_append sorted_wrt_map lex_less_def)

lemma block_index_pairs_lex_sorted: "sorted_wrt lex_less (block_index_pairs n b s1 s2)"
  unfolding block_index_pairs_filter block_range_def
  by (intro sorted_wrt_filter lex_sorted_product) simp_all

text \<open>
  C1. For a corpus of at least two distinct image ids and a positive block size, the
  drain (\<^verbatim>\<open>Reset\<close>, then \<^verbatim>\<open>Next\<close> until \<^verbatim>\<open>HasFinished\<close>) ends; its batches are the
  blocks in row-major scan order, each block's index pairs in lexicographic order;
  together they are the pairs \<open>(ids[idx1], ids[idx2])\<close> for exactly the index pairs
  \<open>idx1 < idx2 < N\<close>, each once: \<open>N * (N - 1) / 2\<close> pairs, no two of them the same
  unordered pair.
\<close>

theorem Exhaustive_drain_complete:
  assumes "distinct (image_ids_m g)" and "2 \<le> length (image_ids_m g)" and "0 < block_size_m g"
  shows "\<exists>pairs.
           Exhaustive_AllPairs g = Some pairs
         \<and> Exhaustive_batches g
             = Some (map (block_pairs (image_ids_m g) (block_size_m g))
                       (row_major_blocks (length (image_ids_m g)) (block_size_m g)))
         \<and> pairs = map (\<lambda>(idx1, idx2). (image_ids_m g ! idx1, image_ids_m g ! idx2))
                     (Exhaustive_index_pairs (length (image_ids_m g)) (block_size_m g))
         \<and> length pairs = length (image_ids_m g) * (length (image_ids_m g) - 1) div 2
         \<and> distinct (map unordered pairs)
         \<and> distinct (Exhaustive_index_pairs (length (image_ids_m g)) (block_size_m g))
         \<and> set (Exhaustive_index_pairs (length (image_ids_m g)) (block_size_m g))
             = {(idx1, idx2). idx1 < idx2 \<and> idx2 < length (image_ids_m g)}
         \<and> (\<forall>corner \<in> set (row_major_blocks (length (image_ids_m g)) (block_size_m g)).
               sorted_wrt lex_less
                 (block_index_pairs (length (image_ids_m g)) (block_size_m g) (fst corner) (snd corner)))"
proof -
  let ?ids = "image_ids_m g" and ?b = "block_size_m g"
  let ?n = "length ?ids"
  let ?idxs = "Exhaustive_index_pairs ?n ?b"
  let ?pairs = "map (\<lambda>(idx1, idx2). (?ids ! idx1, ?ids ! idx2)) ?idxs"
  have batches: "Exhaustive_batches g = Some (map (block_pairs ?ids ?b) (row_major_blocks ?n ?b))"
    using assms(3) by (rule Exhaustive_batches_closed_form)
  have all: "Exhaustive_AllPairs g = Some ?pairs"
    unfolding Exhaustive_AllPairs_def batches by (simp add: concat_block_pairs)
  have len: "length ?pairs = ?n * (?n - 1) div 2"
    using Exhaustive_index_pairs_length [OF assms(3)] by simp
  have dist: "distinct ?idxs" using assms(3) by (rule Exhaustive_index_pairs_distinct)
  have set: "set ?idxs = {(idx1, idx2). idx1 < idx2 \<and> idx2 < ?n}"
    using assms(3) by (rule Exhaustive_index_pairs_set)
  have un: "distinct (map unordered ?pairs)"
    using dist unordered_inj [OF assms(1)] by (simp add: distinct_map comp_def set)
  show ?thesis
    using all batches len un dist set block_index_pairs_lex_sorted by blast
qed

theorem Exhaustive_drain_complete_witness:
  "distinct (image_ids_m (ExhaustivePairGenerator_new
      \<lparr>ExhaustivePairingOptions.block_size = 2\<rparr> [10, 20, 30]))
   \<and> 2 \<le> length (image_ids_m (ExhaustivePairGenerator_new
      \<lparr>ExhaustivePairingOptions.block_size = 2\<rparr> [10, 20, 30]))
   \<and> 0 < block_size_m (ExhaustivePairGenerator_new
      \<lparr>ExhaustivePairingOptions.block_size = 2\<rparr> [10, 20, 30])
   \<and> Exhaustive_batches (ExhaustivePairGenerator_new
      \<lparr>ExhaustivePairingOptions.block_size = 2\<rparr> [10, 20, 30])
       = Some [[(10, 20)], [(10, 30), (20, 30)], [], []]
   \<and> Exhaustive_AllPairs (ExhaustivePairGenerator_new
      \<lparr>ExhaustivePairingOptions.block_size = 2\<rparr> [10, 20, 30])
       = Some [(10, 20), (10, 30), (20, 30)]"
proof -
  let ?g = "ExhaustivePairGenerator_new \<lparr>ExhaustivePairingOptions.block_size = 2\<rparr> [10, 20, 30]"
  have ids: "image_ids_m ?g = [10, 20, 30]"
    by (simp add: ExhaustivePairGenerator_new_def Let_def)
  have b: "block_size_m ?g = 2"
    by (simp add: ExhaustivePairGenerator_new_def Let_def)
  have h1: "distinct (image_ids_m ?g)" by (simp add: ids)
  have h2: "2 \<le> length (image_ids_m ?g)" by (simp add: ids)
  have h3: "0 < block_size_m ?g" by (simp add: b)
  have blocks: "row_major_blocks 3 2 = [(0, 0), (0, 2), (2, 0), (2, 2)]"
    by code_simp
  have idxs: "Exhaustive_index_pairs 3 2 = [(0, 1), (0, 2), (1, 2)]"
    by code_simp
  have batches: "map (block_pairs [10, 20, 30] 2) [(0, 0), (0, 2), (2, 0), (2, 2)]
                   = [[(10, 20)], [(10, 30), (20, 30)], [], []]"
    by code_simp
  have len: "length [10, 20, 30 :: nat] = 3" by simp
  have pairs: "map (\<lambda>(idx1, idx2). ([10, 20, 30 :: nat] ! idx1, [10, 20, 30] ! idx2))
                 [(0, 1), (0, 2), (1, 2)] = [(10, 20), (10, 30), (20, 30)]"
    by simp
  from Exhaustive_drain_complete [OF h1 h2 h3]
  have A: "Exhaustive_batches ?g
             = Some (map (block_pairs (image_ids_m ?g) (block_size_m ?g))
                       (row_major_blocks (length (image_ids_m ?g)) (block_size_m ?g)))"
    and B: "Exhaustive_AllPairs ?g
             = Some (map (\<lambda>(idx1, idx2). (image_ids_m ?g ! idx1, image_ids_m ?g ! idx2))
                     (Exhaustive_index_pairs (length (image_ids_m ?g)) (block_size_m ?g)))"
    by blast+
  have "Exhaustive_batches ?g = Some [[(10, 20)], [(10, 30), (20, 30)], [], []]"
    using A by (simp only: ids b len blocks batches)
  moreover have "Exhaustive_AllPairs ?g = Some [(10, 20), (10, 30), (20, 30)]"
    using B by (simp only: ids b len idxs pairs)
  ultimately show ?thesis using h1 h2 h3 by blast
qed

section \<open>Properties of the transitive generator\<close>

lemma drain_invariant:
  assumes wf: "wf R"
    and step: "\<And>g acc. I g acc \<Longrightarrow> \<not> hf g \<Longrightarrow>
                 I (snd (nx g)) (acc @ [fst (nx g)]) \<and> (snd (nx g), g) \<in> R"
  shows "I g acc \<Longrightarrow> \<exists>g' acc'. drain hf nx g acc = Some acc' \<and> I g' acc' \<and> hf g'"
  using wf
proof (induction g arbitrary: acc rule: wf_induct_rule)
  case (less g)
  show ?case
  proof (cases "hf g")
    case True
    then have "drain hf nx g acc = Some acc" by (subst drain.simps) simp
    with True less.prems show ?thesis by blast
  next
    case False
    from step [OF less.prems False]
    have I': "I (snd (nx g)) (acc @ [fst (nx g)])" and R: "(snd (nx g), g) \<in> R" by simp_all
    from less.IH [OF R I'] drain_step [of hf g nx acc, OF False]
    show ?thesis by simp
  qed
qed

lemma emit_new_appends:
  "distinct ids \<Longrightarrow>
     \<exists>new. emit_new ps (emitted, ids) = (emitted @ new, ids @ map pair_id new)
          \<and> distinct (ids @ map pair_id new) \<and> (\<forall>p \<in> set new. fst p \<noteq> snd p)"
proof (induction ps arbitrary: emitted ids)
  case Nil
  then show ?case by simp
next
  case (Cons p ps)
  show ?case
  proof (cases "fst p \<noteq> snd p \<and> pair_id p \<notin> set ids")
    case True
    then have d: "distinct (ids @ [pair_id p])" using Cons.prems by simp
    from Cons.IH [OF d, of "emitted @ [p]"] obtain new where
      new: "emit_new ps (emitted @ [p], ids @ [pair_id p])
              = ((emitted @ [p]) @ new, (ids @ [pair_id p]) @ map pair_id new)"
        "distinct ((ids @ [pair_id p]) @ map pair_id new)" "\<forall>q \<in> set new. fst q \<noteq> snd q"
      by blast
    have "emit_new (p # ps) (emitted, ids) = (emitted @ (p # new), ids @ map pair_id (p # new))"
      using True new(1) by simp
    moreover have "distinct (ids @ map pair_id (p # new))" using new(2) by simp
    moreover have "\<forall>q \<in> set (p # new). fst q \<noteq> snd q" using True new(3) by simp
    ultimately show ?thesis by blast
  next
    case False
    then have "emit_new (p # ps) (emitted, ids) = emit_new ps (emitted, ids)" by auto
    with Cons.IH [OF Cons.prems, of emitted] show ?thesis by simp
  qed
qed

lemma Transitive_round_appends:
  assumes "distinct (image_pair_ids_m g)"
  shows "image_pair_ids_m (Transitive_round g)
           = image_pair_ids_m g @ map pair_id (image_pairs_m (Transitive_round g))
         \<and> distinct (image_pair_ids_m (Transitive_round g))
         \<and> (\<forall>p \<in> set (image_pairs_m (Transitive_round g)). fst p \<noteq> snd p)
         \<and> options_m (Transitive_round g) = options_m g
         \<and> current_iteration_m (Transitive_round g) = current_iteration_m g + 1"
proof -
  from emit_new_appends [OF assms, of "proposals (image_pair_ids_m g)" "[]"]
  obtain new where
    "emit_new (proposals (image_pair_ids_m g)) ([], image_pair_ids_m g)
       = (new, image_pair_ids_m g @ map pair_id new)"
    "distinct (image_pair_ids_m g @ map pair_id new)" "\<forall>p \<in> set new. fst p \<noteq> snd p"
    by auto
  then show ?thesis by (simp add: Transitive_round_def)
qed

lemma Transitive_Next_pending:
  "image_pairs_m g \<noteq> [] \<Longrightarrow>
     Transitive_Next g
       = (take (Transitive_batch_size g) (image_pairs_m g),
          g\<lparr>image_pairs_m := drop (Transitive_batch_size g) (image_pairs_m g)\<rparr>)"
  by (subst Transitive_Next.simps) simp

lemma Transitive_Next_done:
  "image_pairs_m g = [] \<Longrightarrow> sint (num_iterations (options_m g)) \<le> current_iteration_m g \<Longrightarrow>
     Transitive_Next g = ([], g)"
  by (subst Transitive_Next.simps) simp

lemma Transitive_Next_round:
  "image_pairs_m g = [] \<Longrightarrow> current_iteration_m g < sint (num_iterations (options_m g)) \<Longrightarrow>
     Transitive_Next g = Transitive_Next (Transitive_round g)"
  by (subst Transitive_Next.simps) simp

lemma Transitive_Next_invariant:
  "ids_track ids0 [] g \<Longrightarrow>
     ids_track ids0 (fst (Transitive_Next g)) (snd (Transitive_Next g))
     \<and> options_m (snd (Transitive_Next g)) = options_m g
     \<and> current_iteration_m g \<le> current_iteration_m (snd (Transitive_Next g))
     \<and> (image_pairs_m g = [] \<and> current_iteration_m g < sint (num_iterations (options_m g))
          \<longrightarrow> current_iteration_m g < current_iteration_m (snd (Transitive_Next g)))"
proof (induction g rule: Transitive_Next.induct)
  case (1 g)
  show ?case
  proof (cases "image_pairs_m g \<noteq> []")
    case True
    let ?n = "Transitive_batch_size g"
    let ?g' = "g\<lparr>image_pairs_m := drop ?n (image_pairs_m g)\<rparr>"
    have a: "image_pair_ids_m ?g' = image_pair_ids_m g"
      and b: "image_pairs_m ?g' = drop ?n (image_pairs_m g)"
      by simp_all
    have td: "take ?n (image_pairs_m g) @ drop ?n (image_pairs_m g) = image_pairs_m g"
      by simp
    from 1(2) have A: "image_pair_ids_m g = ids0 @ map pair_id (image_pairs_m g)"
      and B: "distinct (image_pair_ids_m g)"
      and C: "\<forall>p \<in> set (image_pairs_m g). fst p \<noteq> snd p"
      unfolding ids_track_def append_Nil by blast+
    have "ids_track ids0 (take ?n (image_pairs_m g)) ?g'"
      unfolding ids_track_def a b td using A B C by blast
    then show ?thesis using True by (simp add: Transitive_Next_pending)
  next
    case empty: False
    then have e: "image_pairs_m g = []" by simp
    show ?thesis
    proof (cases "sint (num_iterations (options_m g)) \<le> current_iteration_m g")
      case True
      then show ?thesis using 1(2) e by (auto simp: Transitive_Next_done)
    next
      case False
      then have lt: "current_iteration_m g < sint (num_iterations (options_m g))" by simp
      let ?r = "Transitive_round g"
      have eq: "Transitive_Next g = Transitive_Next ?r"
        using e lt by (rule Transitive_Next_round)
      have ids: "image_pair_ids_m g = ids0" and dist: "distinct (image_pair_ids_m g)"
        using 1(2) e unfolding ids_track_def by auto
      note R = Transitive_round_appends [OF dist]
      have R1: "image_pair_ids_m ?r = image_pair_ids_m g @ map pair_id (image_pairs_m ?r)"
        and R2: "distinct (image_pair_ids_m ?r)"
        and R3: "\<forall>p \<in> set (image_pairs_m ?r). fst p \<noteq> snd p"
        using R by blast+
      have r: "ids_track ids0 [] ?r"
        unfolding ids_track_def append_Nil using R1 [unfolded ids] R2 R3 by blast
      have opts: "options_m ?r = options_m g"
        and it: "current_iteration_m ?r = current_iteration_m g + 1"
        using R by blast+
      from 1(1) [OF empty False r]
      show ?thesis unfolding eq using opts it by simp
    qed
  qed
qed

lemma ids_track_shift:
  "ids_track ids0 (E @ H) g
     \<longleftrightarrow> ids_track (ids0 @ map pair_id E) H g \<and> (\<forall>p \<in> set E. fst p \<noteq> snd p)"
  unfolding ids_track_def by auto

lemma Transitive_drain_step:
  assumes I: "ids_track ids0 (concat acc) g" and bs: "0 < Transitive_batch_size g"
    and nf: "\<not> Transitive_HasFinished g"
  shows "ids_track ids0 (concat (acc @ [fst (Transitive_Next g)])) (snd (Transitive_Next g))"
    and "Transitive_batch_size (snd (Transitive_Next g)) = Transitive_batch_size g"
    and "(snd (Transitive_Next g), g) \<in> inv_image (less_than <*lex*> less_than) Transitive_measure"
proof -
  let ?b = "fst (Transitive_Next g)" and ?g' = "snd (Transitive_Next g)"
  have E: "\<forall>p \<in> set (concat acc). fst p \<noteq> snd p"
    and start: "ids_track (ids0 @ map pair_id (concat acc)) [] g"
    using I ids_track_shift [of ids0 "concat acc" "[]" g] by simp_all
  note N = Transitive_Next_invariant [OF start]
  from N have tr: "ids_track (ids0 @ map pair_id (concat acc)) ?b ?g'" by blast
  from N have opts: "options_m ?g' = options_m g" by blast
  from N have mono: "image_pairs_m g = [] \<and> current_iteration_m g < sint (num_iterations (options_m g))
                       \<longrightarrow> current_iteration_m g < current_iteration_m ?g'" by blast
  show "ids_track ids0 (concat (acc @ [?b])) ?g'"
    using tr E ids_track_shift [of ids0 "concat acc" ?b ?g'] by simp
  show "Transitive_batch_size ?g' = Transitive_batch_size g"
    by (simp add: Transitive_batch_size_def opts)
  show "(?g', g) \<in> inv_image (less_than <*lex*> less_than) Transitive_measure"
  proof (cases "image_pairs_m g = []")
    case True
    with nf have lt: "current_iteration_m g < sint (num_iterations (options_m g))"
      by (simp add: Transitive_HasFinished_def)
    with mono True have "current_iteration_m g < current_iteration_m ?g'" by simp
    with lt show ?thesis by (simp add: Transitive_measure_def opts)
  next
    case False
    then have "length (drop (Transitive_batch_size g) (image_pairs_m g)) < length (image_pairs_m g)"
      using bs by simp
    with False show ?thesis by (simp add: Transitive_measure_def Transitive_Next_pending)
  qed
qed

lemma Transitive_drain:
  assumes bs: "0 < Transitive_batch_size g"
  shows "\<exists>batches g'. Transitive_batches g = Some batches
           \<and> ids_track (remdups (map pair_id (cache_m g))) (concat batches) g'
           \<and> image_pairs_m g' = []"
proof -
  let ?I = "\<lambda>g' acc. ids_track (remdups (map pair_id (cache_m g))) (concat acc) g'
                      \<and> 0 < Transitive_batch_size g'"
  have wf: "wf (inv_image (less_than <*lex*> less_than) Transitive_measure)"
    by (intro wf_inv_image wf_lex_prod wf_less_than)
  have step: "\<And>g' acc. ?I g' acc \<Longrightarrow> \<not> Transitive_HasFinished g' \<Longrightarrow>
        ?I (snd (Transitive_Next g')) (acc @ [fst (Transitive_Next g')])
        \<and> (snd (Transitive_Next g'), g') \<in> inv_image (less_than <*lex*> less_than) Transitive_measure"
  proof -
    fix g' acc
    assume h: "?I g' acc" and nf: "\<not> Transitive_HasFinished g'"
    from h have a: "ids_track (remdups (map pair_id (cache_m g))) (concat acc) g'"
      and b: "0 < Transitive_batch_size g'" by blast+
    note S = Transitive_drain_step [OF a b nf]
    from S(2) b have "0 < Transitive_batch_size (snd (Transitive_Next g'))" by simp
    with S(1) S(3)
    show "?I (snd (Transitive_Next g')) (acc @ [fst (Transitive_Next g')])
        \<and> (snd (Transitive_Next g'), g') \<in> inv_image (less_than <*lex*> less_than) Transitive_measure"
      by blast
  qed
  have init: "?I (Transitive_Reset g) []"
    using bs by (simp add: ids_track_def Transitive_Reset_def Transitive_batch_size_def)
  from drain_invariant [of _ ?I Transitive_HasFinished Transitive_Next, OF wf step init]
  obtain g' acc' where
    "drain Transitive_HasFinished Transitive_Next (Transitive_Reset g) [] = Some acc'"
    "?I g' acc'" "Transitive_HasFinished g'"
    by blast
  then show ?thesis
    unfolding Transitive_batches_def Transitive_HasFinished_def by blast
qed

lemma pair_id_unordered: "pair_id p = pair_id q \<longleftrightarrow> unordered p = unordered q"
  by (cases p; cases q)
     (auto simp: pair_id_def ImagePairToPairId_def unordered_def min_def max_def doubleton_eq_iff
           split: if_splits)

lemma distinct_map_cong_eq:
  "(\<And>x y. f x = f y \<longleftrightarrow> h x = h y) \<Longrightarrow> distinct (map f xs) = distinct (map h xs)"
  by (induction xs) (auto simp: image_iff)

lemma path_graph_batches:
  "Transitive_batches path_graph_generator = Some [[(1, 3), (2, 4)], [(1, 4)]]"
  by code_simp

lemma path_graph_rounds:
  "image_pairs_m (Transitive_round (Transitive_Reset path_graph_generator)) = [(1, 3), (2, 4)]"
  "image_pairs_m (Transitive_round (snd (Transitive_Next (Transitive_Reset path_graph_generator))))
     = [(1, 4)]"
  by code_simp+

text \<open>
  C5. With a positive batch size the drain of the transitive generator ends, and no
  unordered pair is emitted twice in the whole run: the canonical ids of the emitted
  pairs are pairwise different, none is the id of a pair matched before, and no emitted
  pair is a self-pair. On the path graph \<open>(1,2), (2,3), (3,4)\<close> with two iterations the
  first round emits \<open>(1,3), (2,4)\<close> and the second round emits \<open>(1,4)\<close> alone.
\<close>

theorem Transitive_never_emits_twice:
  "(0 < sint (batch_size (options_m g)) \<longrightarrow>
      (\<exists>pairs. Transitive_AllPairs g = Some pairs
         \<and> distinct (map pair_id pairs) \<and> distinct (map unordered pairs)
         \<and> (\<forall>p \<in> set pairs. fst p \<noteq> snd p \<and> pair_id p \<notin> pair_id ` set (cache_m g))))
   \<and> Transitive_batches path_graph_generator = Some [[(1, 3), (2, 4)], [(1, 4)]]
   \<and> image_pairs_m (Transitive_round (Transitive_Reset path_graph_generator)) = [(1, 3), (2, 4)]
   \<and> image_pairs_m (Transitive_round (snd (Transitive_Next (Transitive_Reset path_graph_generator))))
       = [(1, 4)]"
proof (intro conjI impI)
  assume "0 < sint (batch_size (options_m g))"
  then have "0 < Transitive_batch_size g" by (simp add: Transitive_batch_size_def)
  from Transitive_drain [OF this] obtain batches g' where
    b: "Transitive_batches g = Some batches"
    and t: "ids_track (remdups (map pair_id (cache_m g))) (concat batches) g'"
    and e: "image_pairs_m g' = []"
    by blast
  let ?pairs = "concat batches"
  from t have eq: "image_pair_ids_m g'
        = remdups (map pair_id (cache_m g)) @ map pair_id (?pairs @ image_pairs_m g')"
    and dd: "distinct (image_pair_ids_m g')"
    and s0: "\<forall>p \<in> set (?pairs @ image_pairs_m g'). fst p \<noteq> snd p"
    unfolding ids_track_def by blast+
  have d: "distinct (remdups (map pair_id (cache_m g)) @ map pair_id ?pairs)"
    using dd [unfolded eq e append_Nil2] .
  have s: "\<forall>p \<in> set ?pairs. fst p \<noteq> snd p"
    using s0 [unfolded e append_Nil2] .
  from d have d1: "distinct (map pair_id ?pairs)" by simp
  from d have "set (map pair_id (cache_m g)) \<inter> set (map pair_id ?pairs) = {}" by simp
  then have d2: "\<forall>p \<in> set ?pairs. pair_id p \<notin> pair_id ` set (cache_m g)"
    by (simp only: set_map) blast
  have d3: "distinct (map unordered ?pairs)"
    using d1 distinct_map_cong_eq [of pair_id unordered ?pairs] pair_id_unordered by blast
  have "Transitive_AllPairs g = Some ?pairs" by (simp add: Transitive_AllPairs_def b)
  with d1 d2 d3 s
  show "\<exists>pairs. Transitive_AllPairs g = Some pairs
         \<and> distinct (map pair_id pairs) \<and> distinct (map unordered pairs)
         \<and> (\<forall>p \<in> set pairs. fst p \<noteq> snd p \<and> pair_id p \<notin> pair_id ` set (cache_m g))"
    by blast
qed (rule path_graph_batches path_graph_rounds)+

theorem Transitive_never_emits_twice_witness:
  "0 < sint (batch_size (options_m path_graph_generator))
   \<and> Transitive_AllPairs path_graph_generator = Some [(1, 3), (2, 4), (1, 4)]
   \<and> distinct (map pair_id [(1, 3), (2, 4), (1, 4)])
   \<and> distinct (map unordered [(1, 3), (2, 4), (1, 4)])
   \<and> list_all (\<lambda>p. fst p \<noteq> snd p \<and> pair_id p \<notin> pair_id ` set (cache_m path_graph_generator))
         [(1, 3), (2, 4), (1, 4)]"
proof -
  have h: "0 < sint (batch_size (options_m path_graph_generator))"
    by (simp add: path_graph_generator_def TransitivePairGenerator_new_def)
  have a: "Transitive_AllPairs path_graph_generator = Some [(1, 3), (2, 4), (1, 4)]"
    using Transitive_never_emits_twice [of path_graph_generator]
    by (simp add: Transitive_AllPairs_def)
  from Transitive_never_emits_twice [of path_graph_generator] h a
  show ?thesis unfolding list_all_iff by auto
qed

end
